theory Spec2Isabelle
  imports Complex_Main "HOL-Library.Sublist"
begin

section \<open>Motion controller (core/gimbal\_controller.py)\<close>

text \<open>
  The controller keeps its angles in Python floats.  They are modelled by the real numbers
  they denote, so the arithmetic below is exact: rounding, infinities and NaN are outside
  the model.  The speed is a Python \<open>int\<close> and is modelled by \<open>int\<close>.

  The two Qt signals of the class are modelled by a trace: every \<open>emit\<close> appends one
  entry to the field \<open>emitted\<close>.  The dictionary built by \<open>get_position\<close> has the three
  keys \<open>pan\<close>, \<open>tilt\<close> and \<open>speed\<close>; it is modelled by the triple of their values.
\<close>

datatype signal = PositionChanged "real \<times> real \<times> int" | StatusChanged string

record GimbalController =
  pan :: real
  tilt :: real
  speed :: int
  is_moving :: bool
  target_pan :: real
  target_tilt :: real
  status :: string
  emitted :: "signal list"

definition init :: GimbalController where
  "init = \<lparr>pan = 0, tilt = 0, speed = 5, is_moving = False,
            target_pan = 0, target_tilt = 0, status = ''Ready'', emitted = []\<rparr>"

definition get_position :: "GimbalController \<Rightarrow> real \<times> real \<times> int" where
  "get_position s = (pan s, tilt s, speed s)"

definition emit :: "signal \<Rightarrow> GimbalController \<Rightarrow> GimbalController" where
  "emit e s = s\<lparr>emitted := emitted s @ [e]\<rparr>"

definition pan_to :: "real \<Rightarrow> int \<Rightarrow> GimbalController \<Rightarrow> GimbalController" where
  "pan_to angle spd s =
     emit (StatusChanged ''Moving'')
       (s\<lparr>target_pan := max (- 180) (min 180 angle),
          speed := max 1 (min 10 spd),
          is_moving := True\<rparr>)"

definition tilt_to :: "real \<Rightarrow> int \<Rightarrow> GimbalController \<Rightarrow> GimbalController" where
  "tilt_to angle spd s =
     emit (StatusChanged ''Moving'')
       (s\<lparr>target_tilt := max (- 90) (min 90 angle),
          speed := max 1 (min 10 spd),
          is_moving := True\<rparr>)"

definition move_to_home :: "GimbalController \<Rightarrow> GimbalController" where
  "move_to_home s = tilt_to 0 5 (pan_to 0 5 s)"

definition stop :: "GimbalController \<Rightarrow> GimbalController" where
  "stop s =
     emit (StatusChanged ''Ready'')
       (s\<lparr>is_moving := False, target_pan := pan s, target_tilt := tilt s\<rparr>)"

definition update :: "GimbalController \<Rightarrow> GimbalController" where
  "update s =
     (if \<not> is_moving s then s
      else
        let pan_diff = target_pan s - pan s;
            tilt_diff = target_tilt s - tilt s;
            s' = (if \<bar>pan_diff\<bar> < 0.1 \<and> \<bar>tilt_diff\<bar> < 0.1
                  then emit (StatusChanged ''Ready'')
                         (s\<lparr>pan := target_pan s, tilt := target_tilt s, is_moving := False\<rparr>)
                  else
                    let move_speed = real_of_int (speed s) / 100
                    in s\<lparr>pan := pan s + pan_diff * move_speed,
                         tilt := tilt s + tilt_diff * move_speed\<rparr>)
        in emit (PositionChanged (get_position s')) s')"

text \<open>\<open>ticks n\<close> is \<open>n\<close> consecutive calls of \<open>update\<close>, as the 16 ms timer makes them.\<close>

primrec ticks :: "nat \<Rightarrow> GimbalController \<Rightarrow> GimbalController" where
  "ticks 0 s = s"
| "ticks (Suc n) s = update (ticks n s)"

text \<open>The operations a session applies to the controller, and a run of them.\<close>

datatype operation =
  SetPanTarget real int | SetTiltTarget real int | GoHome | Stop | Tick

fun apply_operation :: "GimbalController \<Rightarrow> operation \<Rightarrow> GimbalController" where
  "apply_operation s (SetPanTarget a spd) = pan_to a spd s"
| "apply_operation s (SetTiltTarget a spd) = tilt_to a spd s"
| "apply_operation s GoHome = move_to_home s"
| "apply_operation s Stop = stop s"
| "apply_operation s Tick = update s"

definition run :: "operation list \<Rightarrow> GimbalController" where
  "run ops = foldl apply_operation init ops"

text \<open>
  What every state of a session satisfies: the angles and their targets lie within the
  limits, the speed lies between 1 and 10, the attribute \<open>status\<close> is never assigned
  after construction, and a controller at rest sits on its targets.
\<close>

definition invariant :: "GimbalController \<Rightarrow> bool" where
  "invariant s =
     (- 180 \<le> pan s \<and> pan s \<le> 180 \<and> - 180 \<le> target_pan s \<and> target_pan s \<le> 180 \<and>
      - 90 \<le> tilt s \<and> tilt s \<le> 90 \<and> - 90 \<le> target_tilt s \<and> target_tilt s \<le> 90 \<and>
      1 \<le> speed s \<and> speed s \<le> 10 \<and> status s = ''Ready'' \<and>
      (is_moving s \<or> pan s = target_pan s \<and> tilt s = target_tilt s))"

section \<open>Command interpreter (llm/llm\_service.py)\<close>

subsection \<open>Strings\<close>

text \<open>
  A Python \<open>str\<close> is modelled by a \<open>string\<close>, whose characters are read as the code
  points \<open>U+0000\<close> to \<open>U+00FF\<close>.  On these, \<open>str.lower\<close> maps \<open>A\<close>-\<open>Z\<close> and the
  capital letters \<open>U+00C0\<close>-\<open>U+00DE\<close> (the multiplication sign \<open>U+00D7\<close> apart) 32
  places up, \<open>str.strip\<close> removes the twelve white-space characters listed in \<open>isspace\<close>
  from both ends, and the class \<open>\d\<close> of \<open>re\<close> holds the digits \<open>0\<close>-\<open>9\<close> only.
\<close>

definition lower_char :: "char \<Rightarrow> char" where
  "lower_char c =
     (let n = (of_char c :: nat)
      in if (65 \<le> n \<and> n \<le> 90) \<or> (192 \<le> n \<and> n \<le> 222 \<and> n \<noteq> 215)
         then char_of (n + 32) else c)"

definition lower :: "string \<Rightarrow> string" where
  "lower s = map lower_char s"

definition isspace :: "char \<Rightarrow> bool" where
  "isspace c = ((of_char c :: nat) \<in> {9, 10, 11, 12, 13, 28, 29, 30, 31, 32, 133, 160})"

definition strip :: "string \<Rightarrow> string" where
  "strip s = rev (dropWhile isspace (rev (dropWhile isspace s)))"

definition isdigit :: "char \<Rightarrow> bool" where
  "isdigit c = (48 \<le> (of_char c :: nat) \<and> (of_char c :: nat) \<le> 57)"

text \<open>\<open>re.findall(r'\d+', s)\<close>: the maximal runs of digits of \<open>s\<close>, from left to right.\<close>

function findall_digits :: "string \<Rightarrow> string list" where
  "findall_digits [] = []"
| "findall_digits (c # cs) =
     (if isdigit c
      then takeWhile isdigit (c # cs) # findall_digits (dropWhile isdigit cs)
      else findall_digits cs)"
  by pat_completeness auto
termination
  by (relation "measure length") (auto simp: length_dropWhile_le le_imp_less_Suc)

text \<open>\<open>str(n)\<close> for a natural number: its decimal digits, without leading zeros.\<close>

fun str_nat :: "nat \<Rightarrow> string" where
  "str_nat n =
     (if n < 10 then [char_of (48 + n)]
      else str_nat (n div 10) @ [char_of (48 + n mod 10)])"

declare str_nat.simps [simp del]

text \<open>
  The exceptions that can leave the parser.  Only \<open>int\<close> raises there: CPython refuses a
  string of more than \<open>sys.get_int_max_str_digits()\<close> characters (4300 unless the process
  changes it, which this program does not), leading zeros counted, with a \<open>ValueError\<close>
  that carries the message below.  On a shorter run of digits \<open>int\<close> returns the decimal
  value.
\<close>

datatype py_exn = ValueError string

fun exn_str :: "py_exn \<Rightarrow> string" where
  "exn_str (ValueError msg) = msg"

definition int_max_str_digits :: nat where
  "int_max_str_digits = 4300"

definition decimal_value :: "string \<Rightarrow> int" where
  "decimal_value ds = foldl (\<lambda>a c. 10 * a + (int (of_char c) - 48)) 0 ds"

definition int_of_digits :: "string \<Rightarrow> py_exn + int" where
  "int_of_digits ds =
     (if int_max_str_digits < length ds
      then Inl (ValueError
             (''Exceeds the limit ('' @ str_nat int_max_str_digits
              @ '' digits) for integer string conversion: value has ''
              @ str_nat (length ds)
              @ '' digits; use sys.set_int_max_str_digits() to increase the limit''))
      else Inr (decimal_value ds))"

text \<open>
  \<open>re.search(r'\{[^}]+\}', s)\<close>: the leftmost opening brace that is followed by at least
  one character other than a closing brace and then by a closing brace; the match runs up
  to the first closing brace after it.  A candidate whose run is empty, or reaches the end
  of the text, does not match (a shorter run would be followed by a character of the run).
\<close>

fun search_braces :: "string \<Rightarrow> string option" where
  "search_braces [] = None"
| "search_braces (c # cs) =
     (if c = CHR ''{''
      then
        let body = takeWhile (\<lambda>x. x \<noteq> CHR ''}'') cs;
            rest = dropWhile (\<lambda>x. x \<noteq> CHR ''}'') cs
        in if body \<noteq> [] \<and> rest \<noteq> [] then Some (c # body @ [CHR ''}''])
           else search_braces cs
      else search_braces cs)"

subsection \<open>Commands\<close>

text \<open>
  The values \<open>json.loads\<close> can return.  A dictionary is the list of its items, looked up
  with \<open>map_of\<close>.  The dataclass \<open>GimbalCommand\<close> does not check the types of its fields,
  and \<open>_parse_llm_response\<close> stores \<open>action\<close> and \<open>message\<close> as decoded, so these two
  fields hold a \<open>pyval\<close>; a string literal of the source is \<open>PyStr\<close> of it.
\<close>

datatype pyval =
  PyNone | PyBool bool | PyInt int | PyFloat real | PyStr string
  | PyList "pyval list" | PyDict "(string \<times> pyval) list"

record GimbalCommand =
  action :: pyval
  c_value :: real
  c_speed :: int
  message :: pyval
  success :: bool
  error :: "string option"

text \<open>\<open>GimbalCommand(action=a)\<close>: every other field takes the default of the dataclass.\<close>

definition new_command :: "pyval \<Rightarrow> GimbalCommand" where
  "new_command a =
     \<lparr>action = a, c_value = 0.0, c_speed = 5, message = PyStr [],
      success = True, error = None\<rparr>"

subsection \<open>The deterministic parser\<close>

text \<open>
  \<open>Inl\<close> is an exception that leaves the function, \<open>Inr\<close> the command it returns.  The
  number is converted before the keywords of the pan and tilt branches are looked at, as
  in the source, so a text without any of them raises as well when its first run of
  digits is too long.
\<close>

definition fallback_parsing :: "string \<Rightarrow> py_exn + GimbalCommand" where
  "fallback_parsing command =
     (let cmd = strip (lower command) in
      if list_ex (\<lambda>word. sublist word cmd) [''home'', ''center'']
      then Inr ((new_command (PyStr ''home''))\<lparr>message := PyStr ''Moving to home position''\<rparr>)
      else if list_ex (\<lambda>word. sublist word cmd) [''stop'', ''halt'']
      then Inr ((new_command (PyStr ''stop''))\<lparr>message := PyStr ''Stopping movement''\<rparr>)
      else
        let numbers = findall_digits cmd
        in case (case numbers of [] \<Rightarrow> Inr 30 | n # _ \<Rightarrow> int_of_digits n) of
             Inl e \<Rightarrow> Inl e
           | Inr degrees \<Rightarrow>
               if list_ex (\<lambda>word. sublist word cmd) [''pan'', ''left'', ''right'']
               then
                 let direction = (if sublist ''left'' cmd then - 1 else 1 :: int)
                 in Inr ((new_command (PyStr ''pan''))
                      \<lparr>c_value := real_of_int (direction * degrees),
                       message := PyStr (''Panning ''
                                    @ (if direction < 0 then ''left'' else ''right'')
                                    @ '' '' @ str_nat (nat degrees) @ [CHR 0xB0])\<rparr>)
               else if list_ex (\<lambda>word. sublist word cmd) [''tilt'', ''up'', ''down'']
               then
                 let direction = (if sublist ''up'' cmd then 1 else - 1 :: int)
                 in Inr ((new_command (PyStr ''tilt''))
                      \<lparr>c_value := real_of_int (direction * degrees),
                       message := PyStr (''Tilting ''
                                    @ (if direction > 0 then ''up'' else ''down'')
                                    @ '' '' @ str_nat (nat degrees) @ [CHR 0xB0])\<rparr>)
               else Inr ((new_command (PyStr ''error''))
                      \<lparr>message := PyStr ''Command not understood'', success := False\<rparr>))"

subsection \<open>The remote interpreter\<close>

text \<open>
  \<open>json.loads\<close>, \<open>float\<close> and \<open>int\<close> on a string, and \<open>str\<close> on a decoded value belong to
  Python's library; the interpreter is modelled for any behaviour of them.  In these
  functions \<open>None\<close> stands for a raised exception: the \<open>except Exception\<close> around them
  catches all of them alike and never looks at the exception.
\<close>

record pylib =
  json_loads :: "string \<Rightarrow> pyval option"
  float_of_str :: "string \<Rightarrow> real option"
  int_of_str :: "string \<Rightarrow> int option"
  py_str :: "pyval \<Rightarrow> string"

text \<open>\<open>data.get(key, default)\<close> on a dictionary.\<close>

definition dict_get :: "(string \<times> pyval) list \<Rightarrow> string \<Rightarrow> pyval \<Rightarrow> pyval" where
  "dict_get items k d = (case map_of items k of None \<Rightarrow> d | Some v \<Rightarrow> v)"

text \<open>
  \<open>float(v)\<close> and \<open>int(v)\<close>.  \<open>float\<close> of an integer raises \<open>OverflowError\<close> when the
  integer rounds past the largest double, that is from \<open>2^1024 - 2^970\<close> on in absolute
  value; \<open>int\<close> of a float truncates towards zero.
\<close>

fun py_float :: "pylib \<Rightarrow> pyval \<Rightarrow> real option" where
  "py_float lib (PyBool b) = Some (if b then 1 else 0)"
| "py_float lib (PyInt i) =
     (if \<bar>i\<bar> < 2 ^ 1024 - 2 ^ 970 then Some (real_of_int i) else None)"
| "py_float lib (PyFloat r) = Some r"
| "py_float lib (PyStr s) = float_of_str lib s"
| "py_float lib v = None"

fun py_int :: "pylib \<Rightarrow> pyval \<Rightarrow> int option" where
  "py_int lib (PyBool b) = Some (if b then 1 else 0)"
| "py_int lib (PyInt i) = Some i"
| "py_int lib (PyFloat r) = Some (if 0 \<le> r then \<lfloor>r\<rfloor> else \<lceil>r\<rceil>)"
| "py_int lib (PyStr s) = int_of_str lib s"
| "py_int lib v = None"

text \<open>
  The handler of \<open>_parse_llm_response\<close> returns what \<open>_fallback_parsing\<close> returns, and an
  exception of that call leaves the function.
\<close>

definition parse_llm_response ::
  "pylib \<Rightarrow> string \<Rightarrow> string \<Rightarrow> py_exn + GimbalCommand" where
  "parse_llm_response lib response original_command =
     (case search_braces response of
        None \<Rightarrow> fallback_parsing original_command
      | Some json_match \<Rightarrow>
          (case json_loads lib json_match of
             Some (PyDict data) \<Rightarrow>
               (case py_float lib (dict_get data ''value'' (PyInt 0)) of
                  None \<Rightarrow> fallback_parsing original_command
                | Some v \<Rightarrow>
                    (case py_int lib (dict_get data ''speed'' (PyInt 5)) of
                       None \<Rightarrow> fallback_parsing original_command
                     | Some spd \<Rightarrow>
                         Inr \<lparr>action = dict_get data ''action'' (PyStr ''error''),
                              c_value = v,
                              c_speed = max 1 (min 10 spd),
                              message = dict_get data ''message''
                                (PyStr (''Executing ''
                                        @ py_str lib (dict_get data ''action'' PyNone)
                                        @ '' command'')),
                              success = True,
                              error = None\<rparr>))
           | _ \<Rightarrow> fallback_parsing original_command))"

text \<open>
  \<open>reply\<close> is the text \<open>response['message']['content']\<close> of the chat call, or \<open>None\<close> when
  the import, the call or the indexing raised.  The call of \<open>_parse_llm_response\<close> stands
  inside the \<open>try\<close>, so an exception that leaves it is caught here and the parser is called
  once more.
\<close>

definition process_with_ollama ::
  "pylib \<Rightarrow> string option \<Rightarrow> string \<Rightarrow> py_exn + GimbalCommand" where
  "process_with_ollama lib reply command =
     (case reply of
        None \<Rightarrow> fallback_parsing command
      | Some content \<Rightarrow>
          (case parse_llm_response lib (strip content) command of
             Inl e \<Rightarrow> fallback_parsing command
           | Inr c \<Rightarrow> Inr c))"

text \<open>
  \<open>ollama_available\<close> is the flag set by the probe at start-up.  The handler of
  \<open>process_command\<close> turns an exception into a command of its own.
\<close>

definition process_command :: "pylib \<Rightarrow> bool \<Rightarrow> string option \<Rightarrow> string \<Rightarrow> GimbalCommand" where
  "process_command lib ollama_available reply command =
     (case (if ollama_available then process_with_ollama lib reply command
            else fallback_parsing command) of
        Inr c \<Rightarrow> c
      | Inl e \<Rightarrow>
          (new_command (PyStr ''error''))
            \<lparr>message := PyStr (''Error: '' @ exn_str e),
             success := False,
             error := Some (exn_str e)\<rparr>)"

section \<open>Dispatch (gui/main\_window.py)\<close>

definition execute_gimbal_command :: "GimbalCommand \<Rightarrow> GimbalController \<Rightarrow> GimbalController" where
  "execute_gimbal_command command g =
     (if action command = PyStr ''home'' then move_to_home g
      else if action command = PyStr ''stop'' then stop g
      else if action command = PyStr ''pan'' then pan_to (c_value command) (c_speed command) g
      else if action command = PyStr ''tilt'' then tilt_to (c_value command) (c_speed command) g
      else g)"

section \<open>The specification's wording\<close>

text \<open>The clamp of the specification, written as the three cases it names.\<close>

definition clamp :: "'a::linorder \<Rightarrow> 'a \<Rightarrow> 'a \<Rightarrow> 'a" where
  "clamp x lo hi = (if x < lo then lo else if hi < x then hi else x)"

text \<open>
  The magnitude of a command, as the specification words it: the first run of decimal
  digits of the text, 30 when the text has no digit.
\<close>

definition first_digit_run :: "string \<Rightarrow> string" where
  "first_digit_run s = takeWhile isdigit (dropWhile (\<lambda>c. \<not> isdigit c) s)"

definition magnitude :: "string \<Rightarrow> int" where
  "magnitude s = (if first_digit_run s = [] then 30 else decimal_value (first_digit_run s))"


section \<open>Library behaviour used in the examples\<close>

text \<open>
  One behaviour of Python's library, set down at the texts the examples below hand to it:
  \<open>json.loads\<close> of the text \<open>{"value": 10}\<close> is the dictionary with the one item
  \<open>value: 10\<close>, \<open>json.loads\<close> of the text \<open>{pan: left}\<close> raises, and \<open>str(None)\<close> is
  \<open>None\<close>.  No example applies it elsewhere.
\<close>

definition sample_lib :: pylib where
  "sample_lib =
     \<lparr>json_loads = (\<lambda>s. if s = ''{\"value\": 10}''
                          then Some (PyDict [(''value'', PyInt 10)]) else None),
      float_of_str = (\<lambda>s. None),
      int_of_str = (\<lambda>s. None),
      py_str = (\<lambda>v. case v of PyNone \<Rightarrow> ''None'' | PyStr s \<Rightarrow> s | _ \<Rightarrow> [])\<rparr>"

section \<open>Facts about one step and about repeated steps\<close>

lemma update_idle: "\<not> is_moving s \<Longrightarrow> update s = s"
  by (simp add: update_def)

lemma update_far:
  assumes "is_moving s"
    and "\<not> (\<bar>target_pan s - pan s\<bar> < 0.1 \<and> \<bar>target_tilt s - tilt s\<bar> < 0.1)"
  shows "pan (update s) = pan s + (target_pan s - pan s) * (real_of_int (speed s) / 100)"
    and "tilt (update s) = tilt s + (target_tilt s - tilt s) * (real_of_int (speed s) / 100)"
    and "is_moving (update s)"
  using assms by (auto simp add: update_def emit_def Let_def)

lemma update_near:
  assumes "is_moving s"
    and "\<bar>target_pan s - pan s\<bar> < 0.1" and "\<bar>target_tilt s - tilt s\<bar> < 0.1"
  shows "pan (update s) = target_pan s"
    and "tilt (update s) = target_tilt s"
    and "\<not> is_moving (update s)"
  using assms by (simp_all add: update_def emit_def Let_def)

lemma update_keeps:
  "target_pan (update s) = target_pan s"
  "target_tilt (update s) = target_tilt s"
  "speed (update s) = speed s"
  "status (update s) = status s"
  by (simp_all add: update_def emit_def Let_def)

lemma ticks_keeps:
  "target_pan (ticks n s) = target_pan s"
  "target_tilt (ticks n s) = target_tilt s"
  "speed (ticks n s) = speed s"
  "status (ticks n s) = status s"
  by (induction n) (simp_all add: update_keeps)

lemma update_settled:
  assumes "\<not> is_moving s \<longrightarrow> pan s = target_pan s \<and> tilt s = target_tilt s"
  shows "\<not> is_moving (update s) \<longrightarrow>
         pan (update s) = target_pan (update s) \<and> tilt (update s) = target_tilt (update s)"
  using assms by (simp add: update_def emit_def Let_def)

lemma ticks_idle: "\<not> is_moving s \<Longrightarrow> ticks n s = s"
  by (induction n) (simp_all add: update_idle)

lemma ticks_add: "ticks (m + n) s = ticks m (ticks n s)"
  by (induction m) simp_all

lemma ticks_moving_geometric:
  assumes "is_moving (ticks n s)"
  shows "target_pan s - pan (ticks n s)
           = (target_pan s - pan s) * (1 - real_of_int (speed s) / 100) ^ n \<and>
         target_tilt s - tilt (ticks n s)
           = (target_tilt s - tilt s) * (1 - real_of_int (speed s) / 100) ^ n"
  using assms
proof (induction n)
  case 0
  show ?case by simp
next
  case (Suc n)
  let ?t = "ticks n s"
  have mv: "is_moving ?t"
  proof (rule ccontr)
    assume "\<not> is_moving ?t"
    then have "update ?t = ?t" by (rule update_idle)
    with Suc.prems \<open>\<not> is_moving ?t\<close> show False by simp
  qed
  have far: "\<not> (\<bar>target_pan ?t - pan ?t\<bar> < 0.1 \<and> \<bar>target_tilt ?t - tilt ?t\<bar> < 0.1)"
  proof
    assume "\<bar>target_pan ?t - pan ?t\<bar> < 0.1 \<and> \<bar>target_tilt ?t - tilt ?t\<bar> < 0.1"
    then have "\<not> is_moving (update ?t)" using mv by (simp add: update_near)
    with Suc.prems show False by simp
  qed
  have p: "pan (ticks (Suc n) s) = pan ?t + (target_pan s - pan ?t) * (real_of_int (speed s) / 100)"
    using update_far(1) [OF mv far] by (simp add: ticks_keeps)
  have t: "tilt (ticks (Suc n) s) = tilt ?t + (target_tilt s - tilt ?t) * (real_of_int (speed s) / 100)"
    using update_far(2) [OF mv far] by (simp add: ticks_keeps)
  from Suc.IH [OF mv] have
    ihp: "target_pan s - pan ?t = (target_pan s - pan s) * (1 - real_of_int (speed s) / 100) ^ n" and
    iht: "target_tilt s - tilt ?t = (target_tilt s - tilt s) * (1 - real_of_int (speed s) / 100) ^ n"
    by simp_all
  have "target_pan s - pan (ticks (Suc n) s)
          = (target_pan s - pan ?t) * (1 - real_of_int (speed s) / 100)"
    unfolding p by (simp add: algebra_simps)
  moreover have "target_tilt s - tilt (ticks (Suc n) s)
          = (target_tilt s - tilt ?t) * (1 - real_of_int (speed s) / 100)"
    unfolding t by (simp add: algebra_simps)
  ultimately show ?case unfolding ihp iht by simp
qed

lemma ticks_arrive:
  assumes mv: "is_moving s" and lo: "1 \<le> speed s" and hi: "speed s \<le> 10"
  shows "\<exists>n. is_moving (ticks n s) \<and>
             \<bar>target_pan s - pan (ticks n s)\<bar> < 0.1 \<and>
             \<bar>target_tilt s - tilt (ticks n s)\<bar> < 0.1"
proof (rule ccontr)
  assume none: "\<not> ?thesis"
  let ?q = "1 - real_of_int (speed s) / 100"
  let ?D = "\<bar>target_pan s - pan s\<bar> + \<bar>target_tilt s - tilt s\<bar> + 1"
  have all_moving: "is_moving (ticks n s)" for n
  proof (induction n)
    case 0
    from mv show ?case by simp
  next
    case (Suc n)
    from none Suc have "\<not> (\<bar>target_pan (ticks n s) - pan (ticks n s)\<bar> < 0.1 \<and>
                           \<bar>target_tilt (ticks n s) - tilt (ticks n s)\<bar> < 0.1)"
      by (auto simp: ticks_keeps)
    from update_far(3) [OF Suc this] show ?case by simp
  qed
  have q0: "0 \<le> ?q" and q1: "?q < 1" using lo hi by simp_all
  have Dpos: "0 < ?D" by linarith
  from real_arch_pow_inv [of "0.1 / ?D" ?q] Dpos q1
  obtain N where N: "?q ^ N < 0.1 / ?D" by auto
  have qN0: "0 \<le> ?q ^ N" using q0 by simp
  have bound: "x * ?q ^ N < 0.1" if "0 \<le> x" "x \<le> ?D" for x
  proof -
    have "x * ?q ^ N \<le> ?D * ?q ^ N" using that qN0 by (simp add: mult_right_mono)
    also have "\<dots> < 0.1" using N Dpos by (simp add: field_simps)
    finally show ?thesis .
  qed
  from ticks_moving_geometric [OF all_moving [of N]] have
    "\<bar>target_pan s - pan (ticks N s)\<bar> = \<bar>target_pan s - pan s\<bar> * ?q ^ N"
    "\<bar>target_tilt s - tilt (ticks N s)\<bar> = \<bar>target_tilt s - tilt s\<bar> * ?q ^ N"
    using qN0 by (simp_all add: abs_mult)
  moreover have "\<bar>target_pan s - pan s\<bar> * ?q ^ N < 0.1" by (rule bound) simp_all
  moreover have "\<bar>target_tilt s - tilt s\<bar> * ?q ^ N < 0.1" by (rule bound) simp_all
  ultimately have "is_moving (ticks N s) \<and>
             \<bar>target_pan s - pan (ticks N s)\<bar> < 0.1 \<and>
             \<bar>target_tilt s - tilt (ticks N s)\<bar> < 0.1"
    using all_moving [of N] by simp
  with none show False by blast
qed

lemma approach_up:
  fixes x y k :: real
  assumes "0 \<le> k" and "k \<le> 1" and "x \<le> y"
  shows "x \<le> x + (y - x) * k" and "x + (y - x) * k \<le> y"
proof -
  have d: "0 \<le> y - x" using assms(3) by simp
  have "0 \<le> (y - x) * k" using d assms(1) by simp
  then show "x \<le> x + (y - x) * k" by simp
  have "(y - x) * k \<le> (y - x) * 1" using d assms(2) by (rule mult_left_mono [rotated])
  then show "x + (y - x) * k \<le> y" by simp
qed

lemma approach_down:
  fixes x y k :: real
  assumes "0 \<le> k" and "k \<le> 1" and "y \<le> x"
  shows "y \<le> x + (y - x) * k" and "x + (y - x) * k \<le> x"
proof -
  have "- x \<le> - x + (- y - - x) * k" and "- x + (- y - - x) * k \<le> - y"
    using approach_up [of k "- x" "- y"] assms by simp_all
  then show "y \<le> x + (y - x) * k" and "x + (y - x) * k \<le> x"
    by (simp_all add: algebra_simps)
qed

lemma approach_range:
  fixes x y k a b :: real
  assumes "0 \<le> k" and "k \<le> 1" and "a \<le> x" and "x \<le> b" and "a \<le> y" and "y \<le> b"
  shows "a \<le> x + (y - x) * k \<and> x + (y - x) * k \<le> b"
proof (cases "x \<le> y")
  case True
  from approach_up [OF assms(1,2) True] assms show ?thesis by linarith
next
  case False
  then have "y \<le> x" by simp
  from approach_down [OF assms(1,2) this] assms show ?thesis by linarith
qed

lemma move_speed_unit:
  assumes "1 \<le> speed s" and "speed s \<le> 10"
  shows "0 \<le> real_of_int (speed s) / 100" and "real_of_int (speed s) / 100 \<le> 1"
  using assms by simp_all

lemma update_pan_cases:
  "pan (update s) = pan s \<or> pan (update s) = target_pan s \<or>
   pan (update s) = pan s + (target_pan s - pan s) * (real_of_int (speed s) / 100)"
  by (simp add: update_def emit_def Let_def)

lemma update_tilt_cases:
  "tilt (update s) = tilt s \<or> tilt (update s) = target_tilt s \<or>
   tilt (update s) = tilt s + (target_tilt s - tilt s) * (real_of_int (speed s) / 100)"
  by (simp add: update_def emit_def Let_def)

lemma update_pan_up:
  assumes "1 \<le> speed s" and "speed s \<le> 10" and "pan s \<le> target_pan s"
  shows "pan s \<le> pan (update s) \<and> pan (update s) \<le> target_pan s"
  using update_pan_cases [of s] approach_up [OF move_speed_unit [OF assms(1,2)] assms(3)] assms(3)
  by auto

lemma update_pan_down:
  assumes "1 \<le> speed s" and "speed s \<le> 10" and "target_pan s \<le> pan s"
  shows "target_pan s \<le> pan (update s) \<and> pan (update s) \<le> pan s"
  using update_pan_cases [of s] approach_down [OF move_speed_unit [OF assms(1,2)] assms(3)] assms(3)
  by auto

lemma ticks_pan_up:
  assumes "1 \<le> speed s" and "speed s \<le> 10" and "pan s \<le> target_pan s"
  shows "pan (ticks n s) \<le> pan (ticks (Suc n) s) \<and> pan (ticks (Suc n) s) \<le> target_pan s"
proof -
  have below: "pan (ticks m s) \<le> target_pan s" for m
  proof (induction m)
    case 0
    from assms(3) show ?case by simp
  next
    case (Suc m)
    from update_pan_up [of "ticks m s"] assms(1,2) Suc show ?case by (simp add: ticks_keeps)
  qed
  from update_pan_up [of "ticks n s"] assms(1,2) below [of n] show ?thesis
    by (simp add: ticks_keeps)
qed

lemma ticks_pan_down:
  assumes "1 \<le> speed s" and "speed s \<le> 10" and "target_pan s \<le> pan s"
  shows "target_pan s \<le> pan (ticks (Suc n) s) \<and> pan (ticks (Suc n) s) \<le> pan (ticks n s)"
proof -
  have above: "target_pan s \<le> pan (ticks m s)" for m
  proof (induction m)
    case 0
    from assms(3) show ?case by simp
  next
    case (Suc m)
    from update_pan_down [of "ticks m s"] assms(1,2) Suc show ?case by (simp add: ticks_keeps)
  qed
  from update_pan_down [of "ticks n s"] assms(1,2) above [of n] show ?thesis
    by (simp add: ticks_keeps)
qed

lemma invariant_init: "invariant init"
  by (simp add: invariant_def init_def)

lemma invariant_pan_to: "invariant s \<Longrightarrow> invariant (pan_to a spd s)"
  by (simp add: invariant_def pan_to_def emit_def)

lemma invariant_tilt_to: "invariant s \<Longrightarrow> invariant (tilt_to a spd s)"
  by (simp add: invariant_def tilt_to_def emit_def)

lemma invariant_move_to_home: "invariant s \<Longrightarrow> invariant (move_to_home s)"
  by (simp add: move_to_home_def invariant_pan_to invariant_tilt_to)

lemma invariant_stop: "invariant s \<Longrightarrow> invariant (stop s)"
  by (simp add: invariant_def stop_def emit_def)

lemma invariant_update:
  assumes "invariant s"
  shows "invariant (update s)"
proof -
  have k: "0 \<le> real_of_int (speed s) / 100" "real_of_int (speed s) / 100 \<le> 1"
    using assms by (simp_all add: invariant_def)
  have p: "- 180 \<le> pan (update s) \<and> pan (update s) \<le> 180"
    using update_pan_cases [of s] assms
      approach_range [OF k, of "- 180" "pan s" 180 "target_pan s"]
    by (auto simp: invariant_def)
  have t: "- 90 \<le> tilt (update s) \<and> tilt (update s) \<le> 90"
    using update_tilt_cases [of s] assms
      approach_range [OF k, of "- 90" "tilt s" 90 "target_tilt s"]
    by (auto simp: invariant_def)
  have s: "is_moving (update s) \<or>
           pan (update s) = target_pan (update s) \<and> tilt (update s) = target_tilt (update s)"
    using update_settled [of s] assms by (auto simp: invariant_def)
  from p t s assms show ?thesis
    by (simp add: invariant_def update_keeps)
qed

lemma invariant_apply: "invariant s \<Longrightarrow> invariant (apply_operation s x)"
  by (cases x)
     (simp_all add: invariant_pan_to invariant_tilt_to invariant_move_to_home
        invariant_stop invariant_update)

lemma run_snoc: "run (ops @ [x]) = apply_operation (run ops) x"
  by (simp add: run_def)

lemma invariant_run: "invariant (run ops)"
proof (induction ops rule: rev_induct)
  case Nil
  show ?case by (simp add: run_def invariant_init)
next
  case (snoc x xs)
  then show ?case by (simp add: run_snoc invariant_apply)
qed

text \<open>The first match of \<open>findall_digits\<close> is the first run of digits.\<close>

lemma first_number:
  "(case findall_digits s of [] \<Rightarrow> Inr 30 | n # _ \<Rightarrow> int_of_digits n)
     = (if first_digit_run s = [] then Inr 30 else int_of_digits (first_digit_run s))"
proof (induction s rule: findall_digits.induct)
  case 1
  show ?case by (simp add: first_digit_run_def)
next
  case (2 c cs)
  show ?case
  proof (cases "isdigit c")
    case True
    then show ?thesis by (simp add: first_digit_run_def)
  next
    case False
    with 2 show ?thesis by (simp add: first_digit_run_def)
  qed
qed

text \<open>
  The parser on the text \<open>pan\<close>, a space and a run of nines: lower-casing and trimming
  leave the text as it is, none of the words of the first two branches occurs in it, and
  its first run of digits is the run of nines.
\<close>

lemma nines_lower: "lower (''pan '' @ replicate n (CHR ''9'')) = ''pan '' @ replicate n (CHR ''9'')"
  by (simp add: lower_def lower_char_def)

lemma nines_strip:
  "strip (''pan '' @ replicate (Suc n) (CHR ''9'')) = ''pan '' @ replicate (Suc n) (CHR ''9'')"
  by (simp add: strip_def isspace_def replicate_append_same)

lemma nines_no_word:
  assumes "c \<in> set w" and "c \<notin> {CHR ''p'', CHR ''a'', CHR ''n'', CHR '' '', CHR ''9''}"
  shows "\<not> sublist w (''pan '' @ replicate n (CHR ''9''))"
proof
  assume "sublist w (''pan '' @ replicate n (CHR ''9''))"
  then have "set w \<subseteq> set (''pan '' @ replicate n (CHR ''9''))" by (rule set_mono_sublist)
  with assms show False by (auto split: if_splits)
qed

lemma nines_run:
  "first_digit_run (''pan '' @ replicate (Suc n) (CHR ''9'')) = replicate (Suc n) (CHR ''9'')"
  by (simp add: first_digit_run_def isdigit_def)

lemma nines_raise:
  assumes "int_max_str_digits < Suc n"
  shows "fallback_parsing (''pan '' @ replicate (Suc n) (CHR ''9''))
           = Inl (ValueError
               (''Exceeds the limit ('' @ str_nat int_max_str_digits
                @ '' digits) for integer string conversion: value has ''
                @ str_nat (Suc n)
                @ '' digits; use sys.set_int_max_str_digits() to increase the limit''))"
proof -
  let ?t = "''pan '' @ replicate (Suc n) (CHR ''9'')"
  have cmd: "strip (lower ?t) = ?t" by (simp only: nines_lower nines_strip)
  have no: "\<not> sublist ''home'' ?t" "\<not> sublist ''center'' ?t"
    "\<not> sublist ''stop'' ?t" "\<not> sublist ''halt'' ?t"
    by (rule nines_no_word [of "CHR ''h''"], simp, simp,
        rule nines_no_word [of "CHR ''c''"], simp, simp,
        rule nines_no_word [of "CHR ''s''"], simp, simp,
        rule nines_no_word [of "CHR ''h''"], simp, simp)
  have num: "(case findall_digits ?t of [] \<Rightarrow> Inr 30 | n # _ \<Rightarrow> int_of_digits n)
               = int_of_digits (replicate (Suc n) (CHR ''9''))"
    unfolding first_number nines_run by simp
  have "int_of_digits (replicate (Suc n) (CHR ''9''))
           = Inl (ValueError
               (''Exceeds the limit ('' @ str_nat int_max_str_digits
                @ '' digits) for integer string conversion: value has ''
                @ str_nat (Suc n)
                @ '' digits; use sys.set_int_max_str_digits() to increase the limit''))"
    using assms by (simp add: int_of_digits_def)
  with num no show ?thesis
    unfolding fallback_parsing_def cmd Let_def by simp
qed

section \<open>Convergence of the motion loop\<close>

text \<open>
  C1: in a moving state where at least one remaining distance is 0.1 or more, one call of
  \<open>update\<close> advances pan by \<open>(target_pan - pan) * (speed / 100)\<close> and tilt likewise; from
  pan 0, target 100 and speed 5 one call yields pan 5; and for every speed from 1 to 10
  repeated calls move pan towards the target monotonically and never past it, and reach
  a state where both remaining distances are below 0.1, after which every later state has
  \<open>is_moving = False\<close>, pan equal to the target pan and tilt equal to the target tilt.
\<close>

theorem tick_converges:
  assumes mv: "is_moving s"
  shows
   "((0.1 \<le> \<bar>target_pan s - pan s\<bar> \<or> 0.1 \<le> \<bar>target_tilt s - tilt s\<bar>) \<longrightarrow>
       pan (update s) = pan s + (target_pan s - pan s) * (real_of_int (speed s) / 100) \<and>
       tilt (update s) = tilt s + (target_tilt s - tilt s) * (real_of_int (speed s) / 100)) \<and>
    (pan s = 0 \<and> target_pan s = 100 \<and> speed s = 5 \<longrightarrow> pan (update s) = 5) \<and>
    (1 \<le> speed s \<and> speed s \<le> 10 \<longrightarrow>
       (\<forall>n. (pan s \<le> target_pan s \<longrightarrow>
                pan (ticks n s) \<le> pan (ticks (Suc n) s) \<and> pan (ticks (Suc n) s) \<le> target_pan s) \<and>
            (target_pan s \<le> pan s \<longrightarrow>
                target_pan s \<le> pan (ticks (Suc n) s) \<and> pan (ticks (Suc n) s) \<le> pan (ticks n s))) \<and>
       (\<exists>n. is_moving (ticks n s) \<and>
            \<bar>target_pan s - pan (ticks n s)\<bar> < 0.1 \<and> \<bar>target_tilt s - tilt (ticks n s)\<bar> < 0.1 \<and>
            (\<forall>m. n < m \<longrightarrow> \<not> is_moving (ticks m s) \<and>
                  pan (ticks m s) = target_pan s \<and> tilt (ticks m s) = target_tilt s)))"
proof (intro conjI impI)
  assume far: "0.1 \<le> \<bar>target_pan s - pan s\<bar> \<or> 0.1 \<le> \<bar>target_tilt s - tilt s\<bar>"
  then have nn: "\<not> (\<bar>target_pan s - pan s\<bar> < 0.1 \<and> \<bar>target_tilt s - tilt s\<bar> < 0.1)" by auto
  from update_far(1) [OF mv nn]
  show "pan (update s) = pan s + (target_pan s - pan s) * (real_of_int (speed s) / 100)" .
  from update_far(2) [OF mv nn]
  show "tilt (update s) = tilt s + (target_tilt s - tilt s) * (real_of_int (speed s) / 100)" .
next
  assume ex: "pan s = 0 \<and> target_pan s = 100 \<and> speed s = 5"
  then have nn: "\<not> (\<bar>target_pan s - pan s\<bar> < 0.1 \<and> \<bar>target_tilt s - tilt s\<bar> < 0.1)" by simp
  from update_far(1) [OF mv nn] ex show "pan (update s) = 5" by simp
next
  assume sp: "1 \<le> speed s \<and> speed s \<le> 10"
  show "\<forall>n. (pan s \<le> target_pan s \<longrightarrow>
                pan (ticks n s) \<le> pan (ticks (Suc n) s) \<and> pan (ticks (Suc n) s) \<le> target_pan s) \<and>
            (target_pan s \<le> pan s \<longrightarrow>
                target_pan s \<le> pan (ticks (Suc n) s) \<and> pan (ticks (Suc n) s) \<le> pan (ticks n s))"
  proof (intro allI conjI impI)
    fix n
    assume "pan s \<le> target_pan s"
    with sp ticks_pan_up [of s n]
    show "pan (ticks n s) \<le> pan (ticks (Suc n) s)" "pan (ticks (Suc n) s) \<le> target_pan s"
      by simp_all
  next
    fix n
    assume "target_pan s \<le> pan s"
    with sp ticks_pan_down [of s n]
    show "target_pan s \<le> pan (ticks (Suc n) s)" "pan (ticks (Suc n) s) \<le> pan (ticks n s)"
      by simp_all
  qed
next
  assume sp: "1 \<le> speed s \<and> speed s \<le> 10"
  from ticks_arrive [OF mv] sp obtain n where
    n: "is_moving (ticks n s)" "\<bar>target_pan s - pan (ticks n s)\<bar> < 0.1"
       "\<bar>target_tilt s - tilt (ticks n s)\<bar> < 0.1"
    by blast
  let ?t = "ticks n s"
  have near: "\<bar>target_pan ?t - pan ?t\<bar> < 0.1" "\<bar>target_tilt ?t - tilt ?t\<bar> < 0.1"
    using n by (simp_all add: ticks_keeps)
  have stopped: "\<not> is_moving (update ?t)"
    and at: "pan (update ?t) = target_pan s" "tilt (update ?t) = target_tilt s"
    using update_near [OF n(1) near] by (simp_all add: ticks_keeps)
  have later: "\<not> is_moving (ticks m s) \<and> pan (ticks m s) = target_pan s \<and>
               tilt (ticks m s) = target_tilt s" if "n < m" for m
  proof -
    from that have "m = (m - Suc n) + Suc n" by simp
    then obtain j where m: "m = j + Suc n" ..
    have "ticks m s = ticks j (update ?t)" unfolding m ticks_add by simp
    also have "\<dots> = update ?t" using stopped by (rule ticks_idle)
    finally show ?thesis using stopped at by simp
  qed
  show "\<exists>n. is_moving (ticks n s) \<and>
            \<bar>target_pan s - pan (ticks n s)\<bar> < 0.1 \<and> \<bar>target_tilt s - tilt (ticks n s)\<bar> < 0.1 \<and>
            (\<forall>m. n < m \<longrightarrow> \<not> is_moving (ticks m s) \<and>
                  pan (ticks m s) = target_pan s \<and> tilt (ticks m s) = target_tilt s)"
  proof (intro exI [of _ n] conjI allI impI)
    show "is_moving (ticks n s)" by (rule n(1))
    show "\<bar>target_pan s - pan (ticks n s)\<bar> < 0.1" by (rule n(2))
    show "\<bar>target_tilt s - tilt (ticks n s)\<bar> < 0.1" by (rule n(3))
  next
    fix m assume "n < m"
    from later [OF this]
    show "\<not> is_moving (ticks m s)" "pan (ticks m s) = target_pan s"
      "tilt (ticks m s) = target_tilt s" by simp_all
  qed
qed

theorem tick_converges_witness:
  "is_moving (pan_to 100 5 init) \<and>
   pan (update (pan_to 100 5 init)) = 5 \<and>
   tilt (update (pan_to 100 5 init)) = 0 \<and>
   (\<forall>n. pan (ticks n (pan_to 100 5 init)) \<le> pan (ticks (Suc n) (pan_to 100 5 init)) \<and>
        pan (ticks (Suc n) (pan_to 100 5 init)) \<le> 100) \<and>
   (\<exists>n. \<forall>m>n. \<not> is_moving (ticks m (pan_to 100 5 init)) \<and>
                pan (ticks m (pan_to 100 5 init)) = 100 \<and>
                tilt (ticks m (pan_to 100 5 init)) = 0)"
proof -
  let ?s = "pan_to 100 5 init"
  have f: "is_moving ?s" "pan ?s = 0" "target_pan ?s = 100" "speed ?s = 5"
    "tilt ?s = 0" "target_tilt ?s = 0"
    by (simp_all add: pan_to_def init_def emit_def)
  note T = tick_converges [OF f(1)]
  have a: "pan (update ?s) = 5 \<and> tilt (update ?s) = 0"
    using T [THEN conjunct1] f by simp
  have sp: "1 \<le> speed ?s \<and> speed ?s \<le> 10" using f by simp
  note R = T [THEN conjunct2, THEN conjunct2, rule_format, OF sp]
  have b: "\<forall>n. pan (ticks n ?s) \<le> pan (ticks (Suc n) ?s) \<and> pan (ticks (Suc n) ?s) \<le> 100"
    using R [THEN conjunct1] f by simp
  from R [THEN conjunct2] obtain n where
    "\<forall>m. n < m \<longrightarrow> \<not> is_moving (ticks m ?s) \<and>
        pan (ticks m ?s) = target_pan ?s \<and> tilt (ticks m ?s) = target_tilt ?s"
    by blast
  then have c: "\<exists>n. \<forall>m>n. \<not> is_moving (ticks m ?s) \<and> pan (ticks m ?s) = 100 \<and> tilt (ticks m ?s) = 0"
    using f by auto
  from f(1) a b c show ?thesis by blast
qed

section \<open>Target setting\<close>

text \<open>
  C2: for every angle \<open>a\<close> and speed \<open>s\<close>, \<open>pan_to a s\<close> stores the target pan
  \<open>clamp a (-180) 180\<close>, \<open>tilt_to a s\<close> stores the target tilt \<open>clamp a (-90) 90\<close>, and
  both store the speed \<open>clamp s 1 10\<close>, whatever the sign or size of the inputs.
\<close>

theorem set_target_clamps:
  "target_pan (pan_to a spd s) = clamp a (- 180) 180 \<and>
   speed (pan_to a spd s) = clamp spd 1 10 \<and>
   target_tilt (tilt_to a spd s) = clamp a (- 90) 90 \<and>
   speed (tilt_to a spd s) = clamp spd 1 10"
  by (simp add: pan_to_def tilt_to_def emit_def clamp_def max_def min_def)

section \<open>Invariants of a session\<close>

text \<open>
  C5: in every state reached from the initial state by any sequence of \<open>pan_to\<close>,
  \<open>tilt_to\<close>, \<open>move_to_home\<close>, \<open>stop\<close> and \<open>update\<close>, pan lies in \<open>[-180, 180]\<close> and tilt
  lies in \<open>[-90, 90]\<close>.
\<close>

theorem position_in_range:
  "- 180 \<le> pan (run ops) \<and> pan (run ops) \<le> 180 \<and>
   - 90 \<le> tilt (run ops) \<and> tilt (run ops) \<le> 90"
  using invariant_run [of ops] by (simp add: invariant_def)

text \<open>
  C6: in every state reached from the initial state by any sequence of these operations,
  \<open>is_moving = False\<close> implies that pan equals the target pan and tilt equals the target
  tilt exactly.
\<close>

theorem idle_at_target:
  "\<not> is_moving (run ops) \<longrightarrow>
     pan (run ops) = target_pan (run ops) \<and> tilt (run ops) = target_tilt (run ops)"
  using invariant_run [of ops] by (auto simp add: invariant_def)

theorem idle_at_target_witness:
  "\<not> is_moving (run [SetPanTarget 100 5, Tick, SetTiltTarget (- 200) 12, Tick, Stop]) \<and>
   pan (run [SetPanTarget 100 5, Tick, SetTiltTarget (- 200) 12, Tick, Stop]) = 29 / 2 \<and>
   target_pan (run [SetPanTarget 100 5, Tick, SetTiltTarget (- 200) 12, Tick, Stop]) = 29 / 2 \<and>
   tilt (run [SetPanTarget 100 5, Tick, SetTiltTarget (- 200) 12, Tick, Stop]) = - 9 \<and>
   target_tilt (run [SetPanTarget 100 5, Tick, SetTiltTarget (- 200) 12, Tick, Stop]) = - 9"
proof -
  let ?r = "run [SetPanTarget 100 5, Tick, SetTiltTarget (- 200) 12, Tick, Stop]"
  have a: "\<not> is_moving ?r" "pan ?r = 29 / 2" "tilt ?r = - 9"
    by (simp_all add: run_def pan_to_def tilt_to_def update_def stop_def emit_def init_def
          get_position_def Let_def)
  from idle_at_target [of "[SetPanTarget 100 5, Tick, SetTiltTarget (- 200) 12, Tick, Stop]"] a
  show ?thesis by simp
qed

section \<open>Ticks at rest\<close>

text \<open>
  C7: when \<open>is_moving = False\<close>, \<open>update\<close> returns the state it was given: pan, tilt, the
  targets, the speed and the status are unchanged and nothing is emitted.  In particular,
  after \<open>stop\<close> any number of calls of \<open>update\<close> leaves the position where it was, the last
  status emitted is \<open>Ready\<close>, and in a session the attribute \<open>status\<close> is \<open>Ready\<close>.
\<close>

theorem tick_idle_noop:
  "(\<not> is_moving s \<longrightarrow> update s = s) \<and>
   ticks n (stop s) = stop s \<and>
   pan (ticks n (stop s)) = pan s \<and> tilt (ticks n (stop s)) = tilt s \<and>
   last (emitted (ticks n (stop s))) = StatusChanged ''Ready'' \<and>
   status (ticks n (stop (run ops))) = ''Ready''"
proof -
  have idle: "\<not> is_moving (stop s)" for s by (simp add: stop_def emit_def)
  have t: "ticks n (stop s) = stop s" for s by (rule ticks_idle [OF idle])
  have "status (run ops) = ''Ready''" using invariant_run [of ops] by (simp add: invariant_def)
  then have "status (stop (run ops)) = ''Ready''" by (simp add: stop_def emit_def)
  then show ?thesis by (simp add: t update_idle) (simp add: stop_def emit_def)
qed

theorem tick_idle_noop_witness:
  "\<not> is_moving init \<and> update init = init \<and>
   ticks 3 (stop init) = stop init \<and>
   pan (ticks 3 (stop init)) = 0 \<and> tilt (ticks 3 (stop init)) = 0 \<and>
   last (emitted (ticks 3 (stop init))) = StatusChanged ''Ready'' \<and>
   status (ticks 3 (stop (run [SetPanTarget 100 5, Tick]))) = ''Ready''"
proof -
  have idle: "\<not> is_moving init" and at: "pan init = 0" "tilt init = 0"
    by (simp_all add: init_def)
  from tick_idle_noop [of init 3 "[SetPanTarget 100 5, Tick]"] idle at
  show ?thesis by (simp add: stop_def emit_def)
qed

section \<open>The deterministic parser\<close>

text \<open>
  C3, as amended: for every text, \<open>fallback_parsing\<close> lower-cases and trims it and returns
  action \<open>home\<close> if it contains \<open>home\<close> or \<open>center\<close>; else \<open>stop\<close> if it contains \<open>stop\<close>
  or \<open>halt\<close>; else, when the first run of decimal digits has more than 4300 characters,
  it raises; else, with the magnitude that run (30 when there is none), \<open>pan\<close> with value
  minus the magnitude if \<open>left\<close> is a substring and plus the magnitude otherwise, when the
  text contains \<open>pan\<close>, \<open>left\<close> or \<open>right\<close>; else \<open>tilt\<close> with value plus the magnitude if
  \<open>up\<close> is a substring and minus the magnitude otherwise, when it contains \<open>tilt\<close>, \<open>up\<close>
  or \<open>down\<close>; else \<open>error\<close> with \<open>success = False\<close>.  The pan branch comes before the
  tilt branch, and keywords match as substrings.  The examples of the specification
  follow, with one text that holds both \<open>pan\<close> and \<open>tilt\<close> and one where \<open>up\<close> occurs
  inside a longer word.
\<close>

theorem fallback_parsing_rules:
  "(let cmd = strip (lower text) in
     if sublist ''home'' cmd \<or> sublist ''center'' cmd
       then \<exists>c. fallback_parsing text = Inr c \<and> action c = PyStr ''home''
     else if sublist ''stop'' cmd \<or> sublist ''halt'' cmd
       then \<exists>c. fallback_parsing text = Inr c \<and> action c = PyStr ''stop''
     else if int_max_str_digits < length (first_digit_run cmd)
       then \<exists>e. fallback_parsing text = Inl e
     else if sublist ''pan'' cmd \<or> sublist ''left'' cmd \<or> sublist ''right'' cmd
       then \<exists>c. fallback_parsing text = Inr c \<and> action c = PyStr ''pan'' \<and>
              c_value c = real_of_int (if sublist ''left'' cmd then - magnitude cmd else magnitude cmd)
     else if sublist ''tilt'' cmd \<or> sublist ''up'' cmd \<or> sublist ''down'' cmd
       then \<exists>c. fallback_parsing text = Inr c \<and> action c = PyStr ''tilt'' \<and>
              c_value c = real_of_int (if sublist ''up'' cmd then magnitude cmd else - magnitude cmd)
     else \<exists>c. fallback_parsing text = Inr c \<and> action c = PyStr ''error'' \<and> success c = False) \<and>
   fallback_parsing ''pan left 45'' =
     Inr \<lparr>action = PyStr ''pan'', c_value = - 45, c_speed = 5,
          message = PyStr (''Panning left 45'' @ [CHR 0xB0]), success = True, error = None\<rparr> \<and>
   fallback_parsing ''tilt up 30'' =
     Inr \<lparr>action = PyStr ''tilt'', c_value = 30, c_speed = 5,
          message = PyStr (''Tilting up 30'' @ [CHR 0xB0]), success = True, error = None\<rparr> \<and>
   fallback_parsing ''go home'' =
     Inr \<lparr>action = PyStr ''home'', c_value = 0, c_speed = 5,
          message = PyStr ''Moving to home position'', success = True, error = None\<rparr> \<and>
   fallback_parsing ''stop now'' =
     Inr \<lparr>action = PyStr ''stop'', c_value = 0, c_speed = 5,
          message = PyStr ''Stopping movement'', success = True, error = None\<rparr> \<and>
   fallback_parsing ''xyzzy'' =
     Inr \<lparr>action = PyStr ''error'', c_value = 0, c_speed = 5,
          message = PyStr ''Command not understood'', success = False, error = None\<rparr> \<and>
   fallback_parsing ''pan left'' =
     Inr \<lparr>action = PyStr ''pan'', c_value = - 30, c_speed = 5,
          message = PyStr (''Panning left 30'' @ [CHR 0xB0]), success = True, error = None\<rparr> \<and>
   fallback_parsing ''pan and tilt up 10'' =
     Inr \<lparr>action = PyStr ''pan'', c_value = 10, c_speed = 5,
          message = PyStr (''Panning right 10'' @ [CHR 0xB0]), success = True, error = None\<rparr> \<and>
   fallback_parsing ''Look UPWARD'' =
     Inr \<lparr>action = PyStr ''tilt'', c_value = 30, c_speed = 5,
          message = PyStr (''Tilting up 30'' @ [CHR 0xB0]), success = True, error = None\<rparr>"
proof -
  have rules:
    "(let cmd = strip (lower text) in
     if sublist ''home'' cmd \<or> sublist ''center'' cmd
       then \<exists>c. fallback_parsing text = Inr c \<and> action c = PyStr ''home''
     else if sublist ''stop'' cmd \<or> sublist ''halt'' cmd
       then \<exists>c. fallback_parsing text = Inr c \<and> action c = PyStr ''stop''
     else if int_max_str_digits < length (first_digit_run cmd)
       then \<exists>e. fallback_parsing text = Inl e
     else if sublist ''pan'' cmd \<or> sublist ''left'' cmd \<or> sublist ''right'' cmd
       then \<exists>c. fallback_parsing text = Inr c \<and> action c = PyStr ''pan'' \<and>
              c_value c = real_of_int (if sublist ''left'' cmd then - magnitude cmd else magnitude cmd)
     else if sublist ''tilt'' cmd \<or> sublist ''up'' cmd \<or> sublist ''down'' cmd
       then \<exists>c. fallback_parsing text = Inr c \<and> action c = PyStr ''tilt'' \<and>
              c_value c = real_of_int (if sublist ''up'' cmd then magnitude cmd else - magnitude cmd)
     else \<exists>c. fallback_parsing text = Inr c \<and> action c = PyStr ''error'' \<and> success c = False)"
    by (simp add: fallback_parsing_def Let_def new_command_def first_number int_of_digits_def
          magnitude_def int_max_str_digits_def)
  have e1: "fallback_parsing ''pan left 45'' =
     Inr \<lparr>action = PyStr ''pan'', c_value = - 45, c_speed = 5,
          message = PyStr (''Panning left 45'' @ [CHR 0xB0]), success = True, error = None\<rparr>"
    by code_simp
  have e2: "fallback_parsing ''tilt up 30'' =
     Inr \<lparr>action = PyStr ''tilt'', c_value = 30, c_speed = 5,
          message = PyStr (''Tilting up 30'' @ [CHR 0xB0]), success = True, error = None\<rparr>"
    by code_simp
  have e3: "fallback_parsing ''go home'' =
     Inr \<lparr>action = PyStr ''home'', c_value = 0, c_speed = 5,
          message = PyStr ''Moving to home position'', success = True, error = None\<rparr>"
    by code_simp
  have e4: "fallback_parsing ''stop now'' =
     Inr \<lparr>action = PyStr ''stop'', c_value = 0, c_speed = 5,
          message = PyStr ''Stopping movement'', success = True, error = None\<rparr>"
    by code_simp
  have e5: "fallback_parsing ''xyzzy'' =
     Inr \<lparr>action = PyStr ''error'', c_value = 0, c_speed = 5,
          message = PyStr ''Command not understood'', success = False, error = None\<rparr>"
    by code_simp
  have e6: "fallback_parsing ''pan left'' =
     Inr \<lparr>action = PyStr ''pan'', c_value = - 30, c_speed = 5,
          message = PyStr (''Panning left 30'' @ [CHR 0xB0]), success = True, error = None\<rparr>"
    by code_simp
  have e7: "fallback_parsing ''pan and tilt up 10'' =
     Inr \<lparr>action = PyStr ''pan'', c_value = 10, c_speed = 5,
          message = PyStr (''Panning right 10'' @ [CHR 0xB0]), success = True, error = None\<rparr>"
    by code_simp
  have e8: "fallback_parsing ''Look UPWARD'' =
     Inr \<lparr>action = PyStr ''tilt'', c_value = 30, c_speed = 5,
          message = PyStr (''Tilting up 30'' @ [CHR 0xB0]), success = True, error = None\<rparr>"
    by code_simp
  show ?thesis by (intro conjI rules e1 e2 e3 e4 e5 e6 e7 e8)
qed

theorem fallback_parsing_rules_witness:
  "\<not> int_max_str_digits < length (first_digit_run (strip (lower ''Tilt Down 15 ''))) \<and>
   (\<exists>c. fallback_parsing ''Tilt Down 15 '' = Inr c \<and> action c = PyStr ''tilt'' \<and>
        c_value c = - 15)"
proof -
  have cmd: "strip (lower ''Tilt Down 15 '') = ''tilt down 15''" by code_simp
  have no: "\<not> sublist ''home'' ''tilt down 15''" "\<not> sublist ''center'' ''tilt down 15''"
    "\<not> sublist ''stop'' ''tilt down 15''" "\<not> sublist ''halt'' ''tilt down 15''"
    "\<not> sublist ''pan'' ''tilt down 15''" "\<not> sublist ''left'' ''tilt down 15''"
    "\<not> sublist ''right'' ''tilt down 15''" "\<not> sublist ''up'' ''tilt down 15''"
    by code_simp+
  have yes: "sublist ''tilt'' ''tilt down 15''" by code_simp
  have run: "first_digit_run ''tilt down 15'' = ''15''" by code_simp
  have mag: "magnitude ''tilt down 15'' = 15" by code_simp
  have short: "\<not> int_max_str_digits < length (first_digit_run ''tilt down 15'')"
    unfolding run by (simp add: int_max_str_digits_def)
  from fallback_parsing_rules [of "''Tilt Down 15 ''", THEN conjunct1] short
  show ?thesis unfolding Let_def cmd by (simp add: no yes mag)
qed

text \<open>
  The claim as first stated, for every text, fails where \<open>int\<close> refuses the number: on
  \<open>pan\<close>, a space and 4301 nines the parser returns no command.
\<close>

theorem fallback_parsing_long_number_raises:
  "fallback_parsing (''pan '' @ replicate 4301 (CHR ''9'')) =
   Inl (ValueError ''Exceeds the limit (4300 digits) for integer string conversion: value has 4301 digits; use sys.set_int_max_str_digits() to increase the limit'')"
proof -
  have n: "Suc 4300 = (4301::nat)" by simp
  have a: "str_nat 4300 = ''4300''" by (simp add: str_nat.simps, code_simp)
  have b: "str_nat 4301 = ''4301''" by (simp add: str_nat.simps, code_simp)
  have m: "''Exceeds the limit ('' @ ''4300''
             @ '' digits) for integer string conversion: value has '' @ ''4301''
             @ '' digits; use sys.set_int_max_str_digits() to increase the limit''
           = ''Exceeds the limit (4300 digits) for integer string conversion: value has 4301 digits; use sys.set_int_max_str_digits() to increase the limit''"
    by simp
  have "int_max_str_digits < Suc 4300" by (simp add: int_max_str_digits_def)
  from nines_raise [OF this] show ?thesis
    unfolding n int_max_str_digits_def a b m .
qed

text \<open>
  C9: for every text, a command returned by \<open>fallback_parsing\<close> has speed 5, the default of
  the dataclass: the parser never reads a speed from the text.  So has the command of the
  interpreter whenever the remote backend is unavailable, also when the parser raises and
  the handler of \<open>process_command\<close> builds the command.
\<close>

theorem fallback_speed_default:
  "(\<forall>c. fallback_parsing text = Inr c \<longrightarrow> c_speed c = 5) \<and>
   (\<forall>c. process_with_ollama lib None text = Inr c \<longrightarrow> c_speed c = 5) \<and>
   c_speed (process_command lib False reply text) = 5"
proof -
  have f: "c_speed c = 5" if "fallback_parsing text = Inr c" for c
    using that
    by (auto simp add: fallback_parsing_def Let_def new_command_def
          split: if_splits sum.splits)
  have p: "c_speed (process_command lib False reply text) = 5"
    by (cases "fallback_parsing text") (simp_all add: process_command_def new_command_def f)
  from f p show ?thesis by (simp add: process_with_ollama_def)
qed

theorem fallback_speed_default_witness:
  "fallback_parsing ''tilt up slowly'' =
     Inr \<lparr>action = PyStr ''tilt'', c_value = 30, c_speed = 5,
          message = PyStr (''Tilting up 30'' @ [CHR 0xB0]), success = True, error = None\<rparr> \<and>
   process_with_ollama sample_lib None ''tilt up slowly'' = fallback_parsing ''tilt up slowly'' \<and>
   c_speed (process_command sample_lib False None ''tilt up slowly'') = 5"
proof -
  have e: "fallback_parsing ''tilt up slowly'' =
     Inr \<lparr>action = PyStr ''tilt'', c_value = 30, c_speed = 5,
          message = PyStr (''Tilting up 30'' @ [CHR 0xB0]), success = True, error = None\<rparr>"
    by code_simp
  from fallback_speed_default [of "''tilt up slowly''" sample_lib None] e
  show ?thesis by (simp add: process_with_ollama_def)
qed

section \<open>The remote interpreter\<close>



text \<open>
  C4 asks that every command of the interpreter with action \<open>error\<close> has
  \<open>success = False\<close>.  \<open>_parse_llm_response\<close> does otherwise: when the decoded object has
  no key \<open>action\<close> and its \<open>value\<close> and \<open>speed\<close> convert, the command has the default
  action \<open>error\<close> and \<open>success = True\<close>.
\<close>

theorem missing_action_reported_as_success:
  assumes "search_braces (strip content) = Some m"
    and "json_loads lib m = Some (PyDict data)"
    and "map_of data ''action'' = None"
    and "py_float lib (dict_get data ''value'' (PyInt 0)) = Some v"
    and "py_int lib (dict_get data ''speed'' (PyInt 5)) = Some spd"
  shows "action (process_command lib True (Some content) text) = PyStr ''error'' \<and>
         success (process_command lib True (Some content) text) = True"
  using assms
  by (simp add: process_command_def process_with_ollama_def parse_llm_response_def dict_get_def)

theorem missing_action_reported_as_success_witness:
  "search_braces (strip ''{\"value\": 10}'') = Some ''{\"value\": 10}'' \<and>
   json_loads sample_lib ''{\"value\": 10}'' = Some (PyDict [(''value'', PyInt 10)]) \<and>
   process_command sample_lib True (Some ''{\"value\": 10}'') ''zoom in''
     = \<lparr>action = PyStr ''error'', c_value = 10, c_speed = 5,
        message = PyStr ''Executing None command'', success = True, error = None\<rparr>"
proof -
  have s: "search_braces (strip ''{\"value\": 10}'') = Some ''{\"value\": 10}''" by code_simp
  have j: "json_loads sample_lib ''{\"value\": 10}'' = Some (PyDict [(''value'', PyInt 10)])"
    by (simp add: sample_lib_def)
  have m: "map_of [(''value'', PyInt 10)] ''action'' = None" by simp
  have f: "py_float sample_lib (dict_get [(''value'', PyInt 10)] ''value'' (PyInt 0)) = Some 10"
    by (simp add: dict_get_def)
  have i: "py_int sample_lib (dict_get [(''value'', PyInt 10)] ''speed'' (PyInt 5)) = Some 5"
    by (simp add: dict_get_def)
  have p: "process_command sample_lib True (Some ''{\"value\": 10}'') ''zoom in''
     = \<lparr>action = PyStr ''error'', c_value = 10, c_speed = 5,
        message = PyStr ''Executing None command'', success = True, error = None\<rparr>"
    using s j f i
    by (simp add: process_command_def process_with_ollama_def parse_llm_response_def)
       (simp add: dict_get_def sample_lib_def)
  from missing_action_reported_as_success [OF s j m f i, of "''zoom in''"] s j p
  show ?thesis by simp
qed

section \<open>Dispatch of commands\<close>

text \<open>
  C10: for every command whose action is none of \<open>pan\<close>, \<open>tilt\<close>, \<open>home\<close> and \<open>stop\<close>,
  \<open>execute_gimbal_command\<close> returns the controller as it was: position, targets, speed,
  \<open>is_moving\<close>, status and the trace of signals are unchanged.
\<close>

theorem unknown_action_dropped:
  assumes "action c \<notin> {PyStr ''pan'', PyStr ''tilt'', PyStr ''home'', PyStr ''stop''}"
  shows "execute_gimbal_command c g = g"
  using assms by (simp add: execute_gimbal_command_def)

theorem unknown_action_dropped_witness:
  "action (process_command sample_lib False None ''xyzzy'')
     \<notin> {PyStr ''pan'', PyStr ''tilt'', PyStr ''home'', PyStr ''stop''} \<and>
   execute_gimbal_command (process_command sample_lib False None ''xyzzy'') (pan_to 100 5 init)
     = pan_to 100 5 init"
proof -
  have a: "action (process_command sample_lib False None ''xyzzy'') = PyStr ''error''"
    by code_simp
  then have n: "action (process_command sample_lib False None ''xyzzy'')
     \<notin> {PyStr ''pan'', PyStr ''tilt'', PyStr ''home'', PyStr ''stop''}" by simp
  from n unknown_action_dropped [OF n, of "pan_to 100 5 init"] show ?thesis by simp
qed

end
